theory Spec2Isabelle
  imports Main
begin

section \<open>Browser platform\<close>

text \<open>
  Strings are lists of 8-bit characters. The Web Storage areas map keys to strings:
  \<^verbatim>\<open>getItem\<close> is the lookup (\<open>None\<close> is \<^verbatim>\<open>null\<close>), \<^verbatim>\<open>setItem\<close> the update,
  \<^verbatim>\<open>removeItem\<close> the update to \<open>None\<close> and \<^verbatim>\<open>clear\<close> the empty map. The cookie store
  of the page is the list of its name/value pairs, oldest first.
\<close>

type_synonym storage = "string \<rightharpoonup> string"

type_synonym jar = "(string \<times> string) list"

datatype error = InvalidCharacterError | SyntaxError | TypeError

section \<open>The user record (webflow-membership/user)\<close>

datatype field_value = FString string | FBool bool

record loaded =
  ld_email :: bool
  ld_account_info :: bool
  ld_custom_fields :: bool
  ld_access_groups :: bool

record Sa5User =
  email :: "string option"
  name :: "string option"
  accept_communications :: "bool option"
  data :: "(string \<times> field_value) list"
  user_data_loaded :: loaded

text \<open>
  Modelled from the spec: the class \<^verbatim>\<open>Sa5User\<close> of \<^verbatim>\<open>./webflow-membership/user\<close> is
  not among the sources. A blank profile has no email, name or consent, no custom fields,
  and no data layer marked as loaded.
\<close>

definition new_Sa5User :: Sa5User where
  "new_Sa5User =
     \<lparr>email = None, name = None, accept_communications = None, data = [],
      user_data_loaded = \<lparr>ld_email = False, ld_account_info = False,
        ld_custom_fields = False, ld_access_groups = False\<rparr>\<rparr>"

text \<open>
  The text codecs the membership class calls are taken as a parameter: \<^verbatim>\<open>btoa\<close> and
  \<^verbatim>\<open>atob\<close> of the browser (\<open>None\<close>: \<^verbatim>\<open>atob\<close> throws on a text that is not base64),
  \<^verbatim>\<open>JSON.stringify\<close> on a user record, and \<^verbatim>\<open>JSON.parse\<close> followed by
  \<^verbatim>\<open>Sa5User.fromJSON\<close> (\<open>None\<close>: the parser throws).
\<close>

record platform =
  btoa :: "string \<Rightarrow> string"
  atob :: "string \<Rightarrow> string option"
  JSON_stringify :: "Sa5User \<Rightarrow> string"
  JSON_parse :: "string \<Rightarrow> Sa5User option"

text \<open>
  The codecs are reversible: decoding an encoded text gives the text back, reading a
  serialized record gives the record back, and an encoded record is not the empty string.
\<close>

definition reversible :: "platform \<Rightarrow> bool" where
  "reversible P \<longleftrightarrow>
     (\<forall>t. atob P (btoa P t) = Some t) \<and>
     (\<forall>u. JSON_parse P (JSON_stringify P u) = Some u) \<and>
     (\<forall>u. btoa P (JSON_stringify P u) \<noteq> [])"

section \<open>Sa5Membership (src/webflow-membership.ts)\<close>

definition StorageKeys_user :: string where
  "StorageKeys_user = ''wfuUser''"

definition StorageKeys_userKey :: string where
  "StorageKeys_userKey = ''wfuUserKey''"

text \<open>
  What the class does to its collaborators is recorded in a trace: a run of the data
  binder on a user, a call of the configured update callback, and the launch of each of the
  three fetch operations of \<^verbatim>\<open>loadUserInfoAsync\<close>.
\<close>

datatype fetch = LoginInfo | AccountInfo | AccessGroups

datatype event = DataBind Sa5User | UserCallback Sa5User | Launch fetch

record page =
  sessionStorage :: storage
  localStorage :: storage
  cookies :: jar
  trace :: "event list"

text \<open>
  The configuration: whether an update callback is configured, and whether merges run the
  data binder.
\<close>

record config =
  userInfoUpdatedCallback :: bool
  dataBind :: bool

text \<open>
  Modelled from the spec: \<^verbatim>\<open>getCookie\<close> of \<^verbatim>\<open>./utils\<close> is not among the sources. It
  reads the cookie of that name, and gives nothing when the cookie is absent.
\<close>

definition getCookie :: "jar \<Rightarrow> string \<Rightarrow> string option" where
  "getCookie j n = map_of j n"

text \<open>\<^verbatim>\<open>getCookie("wf_loggedin") || false\<close>, read as a condition: a non-empty string.\<close>

definition isLoggedIn :: "page \<Rightarrow> bool" where
  "isLoggedIn s =
     (case getCookie (cookies s) ''wf_loggedin'' of None \<Rightarrow> False | Some v \<Rightarrow> v \<noteq> [])"

text \<open>
  \<^verbatim>\<open>this.isLoggedIn\<close> without a call, read as a condition: the method itself, an object.
\<close>

definition isLoggedIn_method :: bool where
  "isLoggedIn_method = True"

definition clearUserInfo :: "page \<Rightarrow> page" where
  "clearUserInfo s =
     s\<lparr>sessionStorage := (sessionStorage s)(StorageKeys_user := None),
       localStorage := (localStorage s)(StorageKeys_userKey := None)\<rparr>"



definition loadUserInfoCache :: "platform \<Rightarrow> page \<Rightarrow> error + Sa5User option" where
  "loadUserInfoCache P s =
     (if \<not> isLoggedIn_method then Inr None
      else case sessionStorage s StorageKeys_user of
        None \<Rightarrow> Inr None
      | Some userInfo \<Rightarrow>
          if userInfo = [] then Inr None
          else (case atob P userInfo of
                  None \<Rightarrow> Inl InvalidCharacterError
                | Some json \<Rightarrow>
                    (case JSON_parse P json of
                       None \<Rightarrow> Inl SyntaxError
                     | Some user \<Rightarrow> Inr (Some user))))"

text \<open>The field copies of \<^verbatim>\<open>saveUserInfoCache\<close>, one block per flag of the new data.\<close>

definition merge_fields :: "Sa5User \<Rightarrow> Sa5User \<Rightarrow> Sa5User" where
  "merge_fields newUserData userData =
     (let l = user_data_loaded newUserData;
          u1 = (if ld_email l then userData\<lparr>email := email newUserData\<rparr> else userData);
          u2 = (if ld_account_info l
                then u1\<lparr>email := email newUserData, name := name newUserData,
                        accept_communications := accept_communications newUserData\<rparr>
                else u1);
          u3 = (if ld_custom_fields l then u2\<lparr>data := data newUserData\<rparr> else u2)
      in u3)"

text \<open>The four assignments that coalesce the flags.\<close>

definition merge_loaded :: "Sa5User \<Rightarrow> Sa5User \<Rightarrow> Sa5User" where
  "merge_loaded newUserData userData =
     (let l = user_data_loaded newUserData; k = user_data_loaded userData
      in userData\<lparr>user_data_loaded :=
           \<lparr>ld_email = ld_email k \<or> ld_email l,
            ld_account_info = ld_account_info k \<or> ld_account_info l,
            ld_custom_fields = ld_custom_fields k \<or> ld_custom_fields l,
            ld_access_groups = ld_access_groups k \<or> ld_access_groups l\<rparr>\<rparr>)"

text \<open>What a call returns: \<^verbatim>\<open>null\<close>, or nothing (\<^verbatim>\<open>undefined\<close>).\<close>

datatype retval = Null | Undefined

definition saveUserInfoCache ::
  "platform \<Rightarrow> config \<Rightarrow> Sa5User \<Rightarrow> page \<Rightarrow> error + retval \<times> page" where
  "saveUserInfoCache P cfg newUserData s =
     (if \<not> isLoggedIn_method then Inr (Null, s)
      else case loadUserInfoCache P s of
        Inl e \<Rightarrow> Inl e
      | Inr cached \<Rightarrow>
          (let userData0 = (case cached of None \<Rightarrow> new_Sa5User | Some u \<Rightarrow> u);
               userData = merge_loaded newUserData (merge_fields newUserData userData0);
               s1 = s\<lparr>sessionStorage :=
                      (sessionStorage s)(StorageKeys_user \<mapsto> btoa P (JSON_stringify P userData))\<rparr>;
               s2 = (if dataBind cfg then s1\<lparr>trace := trace s1 @ [DataBind userData]\<rparr> else s1);
               s3 = (if userInfoUpdatedCallback cfg
                     then s2\<lparr>trace := trace s2 @ [UserCallback userData]\<rparr> else s2)
           in Inr (Undefined, s3)))"

text \<open>
  \<^verbatim>\<open>loadUserInfoAsync\<close> up to its return: the three fetch operations are launched and
  not awaited.
\<close>

definition loadUserInfoAsync :: "page \<Rightarrow> page" where
  "loadUserInfoAsync s =
     (if \<not> isLoggedIn s then clearUserInfo s
      else s\<lparr>sessionStorage := (sessionStorage s)(StorageKeys_user := None),
             trace := trace s @ [Launch LoginInfo, Launch AccountInfo, Launch AccessGroups]\<rparr>)"

definition readyUserInfo :: "platform \<Rightarrow> config \<Rightarrow> page \<Rightarrow> error + page" where
  "readyUserInfo P cfg s =
     (if \<not> isLoggedIn s then Inr (clearUserInfo s)
      else case loadUserInfoCache P s of
        Inl e \<Rightarrow> Inl e
      | Inr None \<Rightarrow> Inr (loadUserInfoAsync s)
      | Inr (Some user) \<Rightarrow>
          (let s1 = (if dataBind cfg then s\<lparr>trace := trace s @ [DataBind user]\<rparr> else s);
               s2 = (if userInfoUpdatedCallback cfg
                     then s1\<lparr>trace := trace s1 @ [UserCallback user]\<rparr> else s1)
           in Inr s2))"

text \<open>The events of a notification: the data binder if enabled, then the callback if configured.\<close>

definition notified :: "config \<Rightarrow> Sa5User \<Rightarrow> event list" where
  "notified cfg u =
     (if dataBind cfg then [DataBind u] else []) @
     (if userInfoUpdatedCallback cfg then [UserCallback u] else [])"

text \<open>The profile a merge persists, from the cached one (if any) and the new data.\<close>

definition merged :: "Sa5User \<Rightarrow> Sa5User option \<Rightarrow> Sa5User" where
  "merged new c =
     merge_loaded new (merge_fields new (case c of None \<Rightarrow> new_Sa5User | Some u \<Rightarrow> u))"

text \<open>
  A run of merges: the profiles are merged one after the other; a merge that throws
  leaves the page as it was.
\<close>

fun merges :: "platform \<Rightarrow> config \<Rightarrow> Sa5User list \<Rightarrow> page \<Rightarrow> page" where
  "merges P cfg [] s = s"
| "merges P cfg (u # us) s =
     merges P cfg us (case saveUserInfoCache P cfg u s of Inl e \<Rightarrow> s | Inr (r, s') \<Rightarrow> s')"



text \<open>Two profiles carry distinct flags: no flag is set on both.\<close>

definition distinct_flags :: "Sa5User \<Rightarrow> Sa5User \<Rightarrow> bool" where
  "distinct_flags a b \<longleftrightarrow>
     (let k = user_data_loaded a; l = user_data_loaded b
      in \<not> (ld_email k \<and> ld_email l) \<and> \<not> (ld_account_info k \<and> ld_account_info l) \<and>
         \<not> (ld_custom_fields k \<and> ld_custom_fields l) \<and>
         \<not> (ld_access_groups k \<and> ld_access_groups l))"

text \<open>The email block and the account-info block both write the email field.\<close>

definition writes_email :: "Sa5User \<Rightarrow> bool" where
  "writes_email a \<longleftrightarrow> ld_email (user_data_loaded a) \<or> ld_account_info (user_data_loaded a)"

subsection \<open>A concrete reversible platform\<close>

text \<open>
  A platform to run the class on: a record is serialized as a sequence of
  length-prefixed fields, and the text encoding puts a marker in front.
\<close>

definition put :: "string \<Rightarrow> string" where
  "put t = replicate (length t) CHR ''1'' @ CHR ''0'' # t"

definition get :: "string \<Rightarrow> string \<times> string" where
  "get t = (let n = length (takeWhile (\<lambda>c. c = CHR ''1'') t); r = drop (Suc n) t
            in (take n r, drop n r))"

fun get_all :: "nat \<Rightarrow> string \<Rightarrow> string list" where
  "get_all 0 t = []"
| "get_all (Suc n) t = (if t = [] then [] else (case get t of (x, r) \<Rightarrow> x # get_all n r))"

definition put_all :: "string list \<Rightarrow> string" where
  "put_all xs = concat (map put xs)"

definition enc_opt :: "string option \<Rightarrow> string" where
  "enc_opt x = (case x of None \<Rightarrow> ''N'' | Some t \<Rightarrow> CHR ''S'' # t)"

definition dec_opt :: "string \<Rightarrow> string option" where
  "dec_opt t = (case t of [] \<Rightarrow> None | c # r \<Rightarrow> if c = CHR ''S'' then Some r else None)"

definition enc_bool :: "bool \<Rightarrow> char" where
  "enc_bool b = (if b then CHR ''T'' else CHR ''F'')"

definition dec_bool :: "char \<Rightarrow> bool" where
  "dec_bool c = (c = CHR ''T'')"

definition enc_obool :: "bool option \<Rightarrow> string" where
  "enc_obool x = (case x of None \<Rightarrow> ''N'' | Some b \<Rightarrow> [enc_bool b])"

definition dec_obool :: "string \<Rightarrow> bool option" where
  "dec_obool t = (if t = ''N'' then None else Some (t = ''T''))"

definition enc_value :: "field_value \<Rightarrow> string" where
  "enc_value v = (case v of FString t \<Rightarrow> CHR ''S'' # t | FBool b \<Rightarrow> [enc_bool b])"

definition dec_value :: "string \<Rightarrow> field_value" where
  "dec_value t = (case t of [] \<Rightarrow> FBool False
      | c # r \<Rightarrow> if c = CHR ''S'' then FString r else FBool (c = CHR ''T''))"

fun enc_data :: "(string \<times> field_value) list \<Rightarrow> string list" where
  "enc_data [] = []"
| "enc_data ((k, v) # kvs) = k # enc_value v # enc_data kvs"

fun dec_data :: "string list \<Rightarrow> (string \<times> field_value) list" where
  "dec_data (k # v # r) = (k, dec_value v) # dec_data r"
| "dec_data _ = []"

definition enc_loaded :: "loaded \<Rightarrow> string" where
  "enc_loaded l = [enc_bool (ld_email l), enc_bool (ld_account_info l),
     enc_bool (ld_custom_fields l), enc_bool (ld_access_groups l)]"

definition dec_loaded :: "string \<Rightarrow> loaded" where
  "dec_loaded t = \<lparr>ld_email = dec_bool (t ! 0), ld_account_info = dec_bool (t ! 1),
     ld_custom_fields = dec_bool (t ! 2), ld_access_groups = dec_bool (t ! 3)\<rparr>"

definition wire_stringify :: "Sa5User \<Rightarrow> string" where
  "wire_stringify u = put_all (enc_opt (email u) # enc_opt (name u) #
     enc_obool (accept_communications u) # enc_loaded (user_data_loaded u) # enc_data (data u))"

definition wire_parse :: "string \<Rightarrow> Sa5User option" where
  "wire_parse t = (case get_all (length t) t of
      e # n # a # l # d \<Rightarrow> Some \<lparr>email = dec_opt e, name = dec_opt n,
         accept_communications = dec_obool a, data = dec_data d, user_data_loaded = dec_loaded l\<rparr>
    | _ \<Rightarrow> None)"

definition P0 :: platform where
  "P0 = \<lparr>btoa = (\<lambda>t. CHR ''b'' # t), atob = (\<lambda>t. case t of [] \<Rightarrow> None | c # r \<Rightarrow> if c = CHR ''b'' then Some r else None),
     JSON_stringify = wire_stringify, JSON_parse = wire_parse\<rparr>"

text \<open>Pages and profiles to run the class on.\<close>

definition only_email :: loaded where
  "only_email = \<lparr>ld_email = True, ld_account_info = False, ld_custom_fields = False,
     ld_access_groups = False\<rparr>"

definition only_account_info :: loaded where
  "only_account_info = \<lparr>ld_email = False, ld_account_info = True, ld_custom_fields = False,
     ld_access_groups = False\<rparr>"

definition login_partial :: Sa5User where
  "login_partial = new_Sa5User\<lparr>email := Some ''alice@example.com'', user_data_loaded := only_email\<rparr>"

definition account_partial :: Sa5User where
  "account_partial = new_Sa5User\<lparr>email := Some ''al@example.com'', name := Some ''Alice'',
     accept_communications := Some True, user_data_loaded := only_account_info\<rparr>"

definition account_cached :: Sa5User where
  "account_cached = new_Sa5User\<lparr>email := Some ''al@example.com'', name := Some ''Alice'',
     accept_communications := Some True, user_data_loaded := only_account_info\<rparr>"

definition cfg0 :: config where
  "cfg0 = \<lparr>userInfoUpdatedCallback = True, dataBind = True\<rparr>"

definition empty_page :: page where
  "empty_page = \<lparr>sessionStorage = Map.empty, localStorage = Map.empty, cookies = [], trace = []\<rparr>"

definition logged_in_page :: page where
  "logged_in_page = empty_page\<lparr>cookies := [(''wf_loggedin'', ''true'')]\<rparr>"

definition cached_page :: page where
  "cached_page = logged_in_page\<lparr>sessionStorage :=
     [StorageKeys_user \<mapsto> btoa P0 (JSON_stringify P0 account_cached)]\<rparr>"

definition account_partial_alice :: Sa5User where
  "account_partial_alice = account_partial\<lparr>email := Some ''alice@example.com''\<rparr>"

definition stale_page :: page where
  "stale_page = cached_page\<lparr>cookies := [],
     localStorage := [''wfuUserKey'' \<mapsto> btoa P0 ''alice@example.com'']\<rparr>"


text \<open>The events a call appended to the trace, and the kinds of event.\<close>

definition new_events :: "page \<Rightarrow> page \<Rightarrow> event list" where
  "new_events s s' = drop (length (trace s)) (trace s')"

fun is_UserCallback :: "event \<Rightarrow> bool" where
  "is_UserCallback (UserCallback u) = True"
| "is_UserCallback _ = False"

fun is_Launch :: "event \<Rightarrow> bool" where
  "is_Launch (Launch f) = True"
| "is_Launch _ = False"

section \<open>WebflowVideo (dist/webflow-video.js)\<close>

text \<open>
  The document is the list of its elements in document order. An element has a tag name
  and attributes; \<^verbatim>\<open>getAttribute\<close> gives \<^verbatim>\<open>null\<close> (\<open>None\<close>) for an absent attribute, and
  \<^verbatim>\<open>setAttribute\<close> writes the text of its argument, the text \<^verbatim>\<open>null\<close> for \<^verbatim>\<open>null\<close>.
\<close>

record element =
  tagName :: string
  attributes :: "string \<rightharpoonup> string"

type_synonym document = "element list"

definition getAttribute :: "element \<Rightarrow> string \<Rightarrow> string option" where
  "getAttribute el a = attributes el a"

definition setAttribute :: "string \<Rightarrow> string option \<Rightarrow> element \<Rightarrow> element" where
  "setAttribute a v el =
     el\<lparr>attributes := (attributes el)(a \<mapsto> (case v of None \<Rightarrow> ''null'' | Some x \<Rightarrow> x))\<rparr>"

text \<open>
  \<^verbatim>\<open>document.querySelectorAll(`div[wfu-data-poster-url]`)\<close>: the positions of the
  \<^verbatim>\<open>div\<close> elements that have the attribute, in document order.
\<close>

definition querySelectorAll_div_poster :: "document \<Rightarrow> nat list" where
  "querySelectorAll_div_poster doc =
     filter (\<lambda>i. tagName (doc ! i) = ''div'' \<and> attributes (doc ! i) ''wfu-data-poster-url'' \<noteq> None)
       [0..<length doc]"

definition processAllDataPosterUrls :: "document \<Rightarrow> document" where
  "processAllDataPosterUrls doc =
     fold (\<lambda>i d. d[i := setAttribute ''data-poster-url''
                          (getAttribute (d ! i) ''wfu-data-poster-url'') (d ! i)])
       (querySelectorAll_div_poster doc) doc"

definition video_doc :: document where
  "video_doc =
     [\<lparr>tagName = ''video'', attributes = [''wfu-data-poster-url'' \<mapsto> ''poster.jpg'']\<rparr>,
      \<lparr>tagName = ''div'', attributes = [''wfu-data-poster-url'' \<mapsto> ''cover.png'',
         ''data-poster-url'' \<mapsto> ''old.png'']\<rparr>,
      \<lparr>tagName = ''div'', attributes = [''class'' \<mapsto> ''hero'']\<rparr>]"

section \<open>Strings and cookies of the browser\<close>

text \<open>
  \<^verbatim>\<open>String.prototype.split\<close>: the pieces of a text between the occurrences of the
  separator, found from the left; with the empty separator, the characters.
\<close>

definition startsWith :: "string \<Rightarrow> string \<Rightarrow> bool" where
  "startsWith t p \<longleftrightarrow> take (length p) t = p"

function split_at :: "string \<Rightarrow> string \<Rightarrow> string list" where
  "split_at sep [] = [[]]"
| "split_at sep (c # cs) =
     (if sep \<noteq> [] \<and> startsWith (c # cs) sep
      then [] # split_at sep (drop (length sep) (c # cs))
      else (case split_at sep cs of [] \<Rightarrow> [[c]] | x # xs \<Rightarrow> (c # x) # xs))"
  by pat_completeness auto
termination
  by (relation "measure (\<lambda>(sep, t). length t)") auto

definition split :: "string \<Rightarrow> string \<Rightarrow> string list" where
  "split t sep = (if sep = [] then map (\<lambda>c. [c]) t else split_at sep t)"

text \<open>An element of an array by its index, \<^verbatim>\<open>undefined\<close> (\<open>None\<close>) out of range.\<close>

definition at :: "'a list \<Rightarrow> nat \<Rightarrow> 'a option" where
  "at xs i = (if i < length xs then Some (xs ! i) else None)"

text \<open>
  \<^verbatim>\<open>String.prototype.trim\<close> removes the white space at both ends; among the 8-bit
  characters that is TAB, LF, VT, FF, CR, the space and the no-break space.
\<close>

definition is_space :: "char \<Rightarrow> bool" where
  "is_space c \<longleftrightarrow> (of_char c :: nat) \<in> {9, 10, 11, 12, 13, 32, 160}"


text \<open>
  The cookie store behind \<^verbatim>\<open>document.cookie\<close>, for one path and domain and after RFC 6265.
  Reading gives the pairs \<^verbatim>\<open>name=value\<close> separated by \<^verbatim>\<open>; \<close>. Writing a text cuts it
  at its first NUL, LF or CR, takes the part before the first \<^verbatim>\<open>;\<close> as the pair, cut at
  its first \<^verbatim>\<open>=\<close>, with spaces and tabs removed around the name and the value, and the
  rest as attributes. A text with no \<^verbatim>\<open>=\<close> or an empty name is ignored, and so is one
  whose name or value has a control character (a code below 32). An \<^verbatim>\<open>expires\<close> attribute
  with the date of the epoch removes the cookie of that name; otherwise the value replaces
  the one of the cookie of that name, or the cookie is added last.

  Left out: the attributes other than \<^verbatim>\<open>expires\<close> and what depends on them (paths,
  domains, and the names beginning with \<^verbatim>\<open>__Secure-\<close> or \<^verbatim>\<open>__Host-\<close>, which ask for
  attributes), and the limits on the size of a cookie. Cookie stores differ on a text with
  a control character (some refuse it whole where this one cuts it, some refuse the code
  127 too) and on the white space they remove around a name and a value (some remove the
  no-break space too); the properties of the tracker are stated for texts without them.
\<close>

definition is_ctl :: "char \<Rightarrow> bool" where
  "is_ctl c \<longleftrightarrow> (of_char c :: nat) < 32"

definition no_ctl :: "string \<Rightarrow> bool" where
  "no_ctl t \<longleftrightarrow> list_all (\<lambda>c. \<not> is_ctl c) t"

definition is_terminator :: "char \<Rightarrow> bool" where
  "is_terminator c \<longleftrightarrow> (of_char c :: nat) \<in> {0, 10, 13}"

definition cut_line :: "string \<Rightarrow> string" where
  "cut_line t = takeWhile (\<lambda>c. \<not> is_terminator c) t"

definition is_wsp :: "char \<Rightarrow> bool" where
  "is_wsp c \<longleftrightarrow> c = CHR '' '' \<or> of_char c = (9 :: nat)"

definition wsp_trim :: "string \<Rightarrow> string" where
  "wsp_trim t = rev (dropWhile is_wsp (rev (dropWhile is_wsp t)))"

fun document_cookie :: "jar \<Rightarrow> string" where
  "document_cookie [] = []"
| "document_cookie [(n, v)] = n @ ''='' @ v"
| "document_cookie ((n, v) # c # cs) = n @ ''='' @ v @ ''; '' @ document_cookie (c # cs)"

definition before :: "char \<Rightarrow> string \<Rightarrow> string" where
  "before c t = takeWhile (\<lambda>x. x \<noteq> c) t"

definition after :: "char \<Rightarrow> string \<Rightarrow> string" where
  "after c t = drop (Suc (length (before c t))) t"

definition expires_in_the_past :: "string \<Rightarrow> bool" where
  "expires_in_the_past av \<longleftrightarrow>
     wsp_trim (before CHR ''='' av) = ''expires'' \<and>
     wsp_trim (after CHR ''='' av) = ''Thu, 01 Jan 1970 00:00:00 GMT''"

definition set_document_cookie :: "string \<Rightarrow> jar \<Rightarrow> jar" where
  "set_document_cookie t j =
     (let line = cut_line t;
          pair = before CHR '';'' line;
          avs = split (after CHR '';'' line) '';'';
          n = wsp_trim (before CHR ''='' pair);
          v = wsp_trim (after CHR ''='' pair)
      in if CHR ''='' \<notin> set pair \<or> n = [] \<or> \<not> no_ctl n \<or> \<not> no_ctl v then j
         else if list_ex expires_in_the_past avs then filter (\<lambda>(m, w). m \<noteq> n) j
         else if n \<in> set (map fst j) then map (\<lambda>(m, w). if m = n then (m, v) else (m, w)) j
         else j @ [(n, v)])"

section \<open>WfuTracker (src/modules/webflow-track.js)\<close>

record tracker_config =
  "method" :: string
  prefix :: string

definition defaultConfig :: tracker_config where
  "defaultConfig = \<lparr>method = ''sessionStorage'', prefix = ''track''\<rparr>"

definition trackKey :: "tracker_config \<Rightarrow> string \<Rightarrow> string" where
  "trackKey cfg key = prefix cfg @ ''_'' @ key"

text \<open>\<^verbatim>\<open>val || "true"\<close> on an optional text: an absent or empty one gives \<^verbatim>\<open>true\<close>.\<close>

definition or_true :: "string option \<Rightarrow> string" where
  "or_true val = (case val of None \<Rightarrow> ''true'' | Some v \<Rightarrow> if v = [] then ''true'' else v)"

definition track :: "tracker_config \<Rightarrow> string \<Rightarrow> string option \<Rightarrow> page \<Rightarrow> page" where
  "track cfg key val s =
     (if method cfg = ''sessionStorage''
      then s\<lparr>sessionStorage := (sessionStorage s)(trackKey cfg key \<mapsto> or_true val)\<rparr>
      else if method cfg = ''localStorage''
      then s\<lparr>localStorage := (localStorage s)(trackKey cfg key \<mapsto> or_true val)\<rparr>
      else if method cfg = ''cookies''
      then s\<lparr>cookies :=
             set_document_cookie (prefix cfg @ ''_'' @ key @ ''='' @ or_true val) (cookies s)\<rparr>
      else s)"

definition isTracked :: "tracker_config \<Rightarrow> string \<Rightarrow> page \<Rightarrow> string option" where
  "isTracked cfg key s =
     (if method cfg = ''sessionStorage'' then sessionStorage s (trackKey cfg key)
      else if method cfg = ''localStorage'' then localStorage s (trackKey cfg key)
      else if method cfg = ''cookies''
      then (case find (\<lambda>row. startsWith row (trackKey cfg key))
                   (split (document_cookie (cookies s)) ''; '') of
              None \<Rightarrow> None
            | Some row \<Rightarrow> at (split row ''='') 1)
      else None)"



text \<open>
  The cookie stores the properties of the tracker are stated for: every name is not empty,
  has no \<^verbatim>\<open>=\<close>, no \<^verbatim>\<open>;\<close> and no control character, and no white space at its ends, and
  every value has no \<^verbatim>\<open>;\<close>. Writing through \<^verbatim>\<open>document.cookie\<close> gives such names and
  values, but for a name with a no-break space at one of its ends.
\<close>

definition cookie_name_ok :: "string \<Rightarrow> bool" where
  "cookie_name_ok n \<longleftrightarrow>
     n \<noteq> [] \<and> CHR ''='' \<notin> set n \<and> CHR '';'' \<notin> set n \<and> no_ctl n \<and>
     \<not> is_space (hd n) \<and> \<not> is_space (last n)"

definition jar_ok :: "jar \<Rightarrow> bool" where
  "jar_ok j \<longleftrightarrow> list_all (\<lambda>(n, v). cookie_name_ok n \<and> CHR '';'' \<notin> set v) j"

text \<open>
  What writing through \<^verbatim>\<open>document.cookie\<close> keeps of every cookie of the store, from the
  empty store on.
\<close>

definition store_ok :: "jar \<Rightarrow> bool" where
  "store_ok j \<longleftrightarrow>
     list_all (\<lambda>(n, v). n \<noteq> [] \<and> CHR ''='' \<notin> set n \<and> CHR '';'' \<notin> set n \<and> no_ctl n \<and>
        \<not> is_wsp (hd n) \<and> \<not> is_wsp (last n) \<and> CHR '';'' \<notin> set v \<and> no_ctl v) j"

text \<open>
  A value that every cookie store carries whole: not empty, with no \<^verbatim>\<open>=\<close>, no \<^verbatim>\<open>;\<close>,
  no control character (a code below 32, or 127), and no white space at its ends.
\<close>

definition cookie_value_ok :: "string \<Rightarrow> bool" where
  "cookie_value_ok v \<longleftrightarrow>
     v \<noteq> [] \<and> CHR ''='' \<notin> set v \<and> CHR '';'' \<notin> set v \<and> no_ctl v \<and> CHR 0x7F \<notin> set v \<and>
     \<not> is_space (hd v) \<and> \<not> is_space (last v)"

text \<open>
  A key that every cookie store takes as a name without attributes: it has no character
  of code 127 and does not begin with two underscores.
\<close>

definition plain_key :: "string \<Rightarrow> bool" where
  "plain_key k \<longleftrightarrow> CHR 0x7F \<notin> set k \<and> \<not> startsWith k ''__''"

text \<open>No cookie of another name has a name that begins with the given one.\<close>

definition unshadowed :: "string \<Rightarrow> jar \<Rightarrow> bool" where
  "unshadowed k j \<longleftrightarrow> list_all (\<lambda>(n, v). n = k \<or> \<not> startsWith n k) j"

text \<open>Trackers and pages to run the tracker on.\<close>

definition session_tracker :: tracker_config where
  "session_tracker = defaultConfig"

definition local_tracker :: tracker_config where
  "local_tracker = \<lparr>method = ''localStorage'', prefix = ''track''\<rparr>"

definition cookie_tracker :: tracker_config where
  "cookie_tracker = \<lparr>method = ''cookies'', prefix = ''track''\<rparr>"

definition visited_page :: page where
  "visited_page =
     \<lparr>sessionStorage = [''track_seen'' \<mapsto> ''true'', ''wfuUser'' \<mapsto> ''abc''],
      localStorage = [''track_seen'' \<mapsto> ''true'', ''theme'' \<mapsto> ''dark''],
      cookies = [(''track_seen'', ''true''), (''wf_loggedin'', ''true''), (''track_step'', ''2'')],
      trace = []\<rparr>"

section \<open>Properties of the membership cache\<close>

lemma get_put: "get (put t @ r) = (t, r)"
  by (simp add: get_def put_def takeWhile_append Let_def)

lemma put_nonempty: "put t \<noteq> []"
  by (simp add: put_def)

lemma get_all_put_all: "length (put_all xs) \<le> n \<Longrightarrow> get_all n (put_all xs) = xs"
proof (induction xs arbitrary: n)
  case Nil
  then show ?case by (cases n) (simp_all add: put_all_def)
next
  case (Cons x xs)
  have "length (put_all (x # xs)) = Suc (length x + length x) + length (put_all xs)"
    by (simp add: put_all_def put_def)
  with Cons.prems obtain m where n: "n = Suc m" and m: "length (put_all xs) \<le> m"
    by (cases n) auto
  have "put_all (x # xs) = put x @ put_all xs" by (simp add: put_all_def)
  then show ?case using Cons.IH [OF m] n by (simp add: get_put put_nonempty)
qed

lemma dec_enc_opt: "dec_opt (enc_opt x) = x"
  by (cases x) (simp_all add: dec_opt_def enc_opt_def)

lemma dec_enc_obool: "dec_obool (enc_obool x) = x"
  by (cases x) (auto simp: dec_obool_def enc_obool_def enc_bool_def)

lemma dec_enc_value: "dec_value (enc_value v) = v"
  by (cases v) (auto simp: dec_value_def enc_value_def enc_bool_def)

lemma dec_enc_data: "dec_data (enc_data d) = d"
  by (induction d rule: enc_data.induct) (simp_all add: dec_enc_value)

lemma dec_enc_loaded: "dec_loaded (enc_loaded l) = l"
  by (cases l) (simp add: dec_loaded_def enc_loaded_def enc_bool_def dec_bool_def)

lemma wire_roundtrip: "wire_parse (wire_stringify u) = Some u"
  by (cases u) (simp add: wire_parse_def wire_stringify_def get_all_put_all
      dec_enc_opt dec_enc_obool dec_enc_data dec_enc_loaded)

lemma wire_nonempty: "wire_stringify u \<noteq> []"
  by (simp add: wire_stringify_def put_all_def put_nonempty)

lemma reversible_P0: "reversible P0"
  by (simp add: reversible_def P0_def wire_roundtrip)

lemma load_after_store:
  assumes "reversible P"
  shows "loadUserInfoCache P (s\<lparr>sessionStorage := (sessionStorage s)(StorageKeys_user \<mapsto> btoa P (JSON_stringify P u))\<rparr>) = Inr (Some u)"
  using assms by (simp add: loadUserInfoCache_def reversible_def isLoggedIn_method_def)

lemma load_trace_irrelevant:
  "loadUserInfoCache P (s\<lparr>trace := t\<rparr>) = loadUserInfoCache P s"
  by (simp add: loadUserInfoCache_def)

lemma save_result:
  assumes "loadUserInfoCache P s = Inr c"
  shows "saveUserInfoCache P cfg new s =
     Inr (Undefined, s\<lparr>sessionStorage := (sessionStorage s)(StorageKeys_user \<mapsto>
        btoa P (JSON_stringify P (merged new c))),
        trace := trace s @ notified cfg (merged new c)\<rparr>)"
  using assms
  by (simp add: saveUserInfoCache_def isLoggedIn_method_def Let_def notified_def merged_def)

lemma save_throws:
  assumes "loadUserInfoCache P s = Inl e"
  shows "saveUserInfoCache P cfg new s = Inl e"
  using assms by (simp add: saveUserInfoCache_def isLoggedIn_method_def)

lemma load_after_save:
  assumes "reversible P" and "loadUserInfoCache P s = Inr c"
    and "saveUserInfoCache P cfg new s = Inr (r, s')"
  shows "loadUserInfoCache P s' = Inr (Some (merged new c))"
  using assms(3) load_after_store [OF assms(1)]
  by (auto simp: save_result [OF assms(2)] load_trace_irrelevant)

text \<open>
  C1: merging a partial profile whose only set flag is email into a cached profile whose
  account-info flag is set persists a profile with both flags set, the email of the partial,
  and the name and consent of the cached profile.
\<close>

theorem merge_email_into_account_info:
  assumes "reversible P"
    and "loadUserInfoCache P s = Inr (Some cached)"
    and "ld_account_info (user_data_loaded cached)"
    and "user_data_loaded partial = \<lparr>ld_email = True, ld_account_info = False,
           ld_custom_fields = False, ld_access_groups = False\<rparr>"
  shows "\<exists>s' u. saveUserInfoCache P cfg partial s = Inr (Undefined, s') \<and>
           sessionStorage s' ''wfuUser'' = Some (btoa P (JSON_stringify P u)) \<and>
           loadUserInfoCache P s' = Inr (Some u) \<and>
           ld_email (user_data_loaded u) \<and> ld_account_info (user_data_loaded u) \<and>
           email u = email partial \<and> name u = name cached \<and>
           accept_communications u = accept_communications cached"
proof -
  let ?u = "merged partial (Some cached)"
  let ?s' = "s\<lparr>sessionStorage := (sessionStorage s)(StorageKeys_user \<mapsto>
        btoa P (JSON_stringify P ?u)), trace := trace s @ notified cfg ?u\<rparr>"
  have sv: "saveUserInfoCache P cfg partial s = Inr (Undefined, ?s')"
    by (rule save_result [OF assms(2)])
  have ld: "loadUserInfoCache P ?s' = Inr (Some ?u)"
    by (rule load_after_save [OF assms(1) assms(2) sv])
  have st: "sessionStorage ?s' ''wfuUser'' = Some (btoa P (JSON_stringify P ?u))"
    by (simp add: StorageKeys_user_def)
  have fl: "ld_email (user_data_loaded ?u) \<and> ld_account_info (user_data_loaded ?u)"
    using assms(3,4) by (simp add: merged_def merge_loaded_def merge_fields_def Let_def)
  have fd: "email ?u = email partial \<and> name ?u = name cached \<and>
      accept_communications ?u = accept_communications cached"
    using assms(4) by (simp add: merged_def merge_loaded_def merge_fields_def Let_def)
  show ?thesis using sv ld st fl fd by blast
qed

lemma cached_page_load: "loadUserInfoCache P0 cached_page = Inr (Some account_cached)"
  using reversible_P0
  by (simp add: reversible_def loadUserInfoCache_def cached_page_def isLoggedIn_method_def)

theorem merge_email_into_account_info_witness:
  "\<exists>s' u. saveUserInfoCache P0 cfg0 login_partial cached_page = Inr (Undefined, s') \<and>
     sessionStorage s' ''wfuUser'' = Some (btoa P0 (JSON_stringify P0 u)) \<and>
     loadUserInfoCache P0 s' = Inr (Some u) \<and>
     ld_email (user_data_loaded u) \<and> ld_account_info (user_data_loaded u) \<and>
     email u = Some ''alice@example.com'' \<and> name u = Some ''Alice'' \<and>
     accept_communications u = Some True"
  using merge_email_into_account_info [OF reversible_P0 cached_page_load, of login_partial cfg0]
  by (simp add: account_cached_def login_partial_def only_account_info_def only_email_def new_Sa5User_def)









lemma empty_page_load: "loadUserInfoCache P empty_page = Inr None"
  by (simp add: loadUserInfoCache_def empty_page_def)

lemma merges_two:
  assumes "reversible P" and "loadUserInfoCache P s = Inr c"
  shows "merges P cfg [a, b] s =
     s\<lparr>sessionStorage := (sessionStorage s)(StorageKeys_user \<mapsto>
          btoa P (JSON_stringify P (merged b (Some (merged a c))))),
       trace := trace s @ notified cfg (merged a c) @
          notified cfg (merged b (Some (merged a c)))\<rparr>"
proof -
  let ?s1 = "s\<lparr>sessionStorage := (sessionStorage s)(StorageKeys_user \<mapsto>
        btoa P (JSON_stringify P (merged a c))), trace := trace s @ notified cfg (merged a c)\<rparr>"
  have 1: "saveUserInfoCache P cfg a s = Inr (Undefined, ?s1)"
    by (rule save_result [OF assms(2)])
  have 2: "loadUserInfoCache P ?s1 = Inr (Some (merged a c))"
    by (rule load_after_save [OF assms 1])
  show ?thesis
    by (simp add: 1 save_result [OF 2])
qed

lemma load_after_two:
  assumes "reversible P" and "loadUserInfoCache P s = Inr c"
  shows "loadUserInfoCache P (merges P cfg [a, b] s) = Inr (Some (merged b (Some (merged a c))))"
  unfolding merges_two [OF assms]
  using load_after_store [OF assms(1)] by (simp add: load_trace_irrelevant)


lemma encoded_inject:
  assumes "reversible P"
    and "btoa P (JSON_stringify P u) = btoa P (JSON_stringify P v)"
  shows "u = v"
proof -
  have "atob P (btoa P (JSON_stringify P u)) = atob P (btoa P (JSON_stringify P v))"
    using assms(2) by simp
  then have "JSON_stringify P u = JSON_stringify P v"
    using assms(1) by (simp add: reversible_def)
  then have "JSON_parse P (JSON_stringify P u) = JSON_parse P (JSON_stringify P v)"
    by simp
  then show ?thesis using assms(1) by (simp add: reversible_def)
qed

lemma persisted_after_two:
  assumes "reversible P" and "loadUserInfoCache P s = Inr c"
  shows "sessionStorage (merges P cfg [a, b] s) =
     (sessionStorage s)(StorageKeys_user \<mapsto>
        btoa P (JSON_stringify P (merged b (Some (merged a c)))))"
  unfolding merges_two [OF assms] by simp

lemma two_throw:
  assumes "loadUserInfoCache P s = Inl e"
  shows "merges P cfg [a, b] s = s"
  by (simp add: save_throws [OF assms])

lemma email_merged:
  "email (merged new c) =
     (if writes_email new then email new
      else email (case c of None \<Rightarrow> new_Sa5User | Some u \<Rightarrow> u))"
  by (simp add: merged_def merge_loaded_def merge_fields_def writes_email_def Let_def)

lemma name_merged:
  "name (merged new c) =
     (if ld_account_info (user_data_loaded new) then name new
      else name (case c of None \<Rightarrow> new_Sa5User | Some u \<Rightarrow> u))"
  by (simp add: merged_def merge_loaded_def merge_fields_def Let_def)

lemma accept_merged:
  "accept_communications (merged new c) =
     (if ld_account_info (user_data_loaded new) then accept_communications new
      else accept_communications (case c of None \<Rightarrow> new_Sa5User | Some u \<Rightarrow> u))"
  by (simp add: merged_def merge_loaded_def merge_fields_def Let_def)

lemma data_merged:
  "data (merged new c) =
     (if ld_custom_fields (user_data_loaded new) then data new
      else data (case c of None \<Rightarrow> new_Sa5User | Some u \<Rightarrow> u))"
  by (simp add: merged_def merge_loaded_def merge_fields_def Let_def)

lemma loaded_merged:
  "user_data_loaded (merged new c) =
     (let k = user_data_loaded (case c of None \<Rightarrow> new_Sa5User | Some u \<Rightarrow> u);
          l = user_data_loaded new
      in \<lparr>ld_email = ld_email k \<or> ld_email l,
          ld_account_info = ld_account_info k \<or> ld_account_info l,
          ld_custom_fields = ld_custom_fields k \<or> ld_custom_fields l,
          ld_access_groups = ld_access_groups k \<or> ld_access_groups l\<rparr>)"
  by (simp add: merged_def merge_loaded_def merge_fields_def Let_def)

lemma merged_commute:
  assumes "distinct_flags a b"
    and "writes_email a \<and> writes_email b \<longrightarrow> email a = email b"
  shows "merged b (Some (merged a c)) = merged a (Some (merged b c))"
proof (rule Sa5User.equality)
  show "email (merged b (Some (merged a c))) = email (merged a (Some (merged b c)))"
    using assms(2) by (simp add: email_merged)
  show "name (merged b (Some (merged a c))) = name (merged a (Some (merged b c)))"
    using assms(1) by (simp add: name_merged distinct_flags_def Let_def)
  show "accept_communications (merged b (Some (merged a c))) =
      accept_communications (merged a (Some (merged b c)))"
    using assms(1) by (simp add: accept_merged distinct_flags_def Let_def)
  show "data (merged b (Some (merged a c))) = data (merged a (Some (merged b c)))"
    using assms(1) by (simp add: data_merged distinct_flags_def Let_def)
  show "user_data_loaded (merged b (Some (merged a c))) =
      user_data_loaded (merged a (Some (merged b c)))"
    by (auto simp: loaded_merged Let_def)
  show "Sa5User.more (merged b (Some (merged a c))) = Sa5User.more (merged a (Some (merged b c)))"
    by simp
qed

text \<open>
  C3, as stated, fails: a profile carrying only the email flag and a profile carrying only
  the account-info flag, merged into an empty cache in the two orders, persist different
  profiles. The account-info block writes the email field too, so the later merge decides
  the email.
\<close>

theorem merge_order_counterexample:
  "distinct_flags login_partial account_partial \<and>
   sessionStorage (merges P0 cfg0 [login_partial, account_partial] empty_page) ''wfuUser'' \<noteq>
   sessionStorage (merges P0 cfg0 [account_partial, login_partial] empty_page) ''wfuUser'' \<and>
   loadUserInfoCache P0 (merges P0 cfg0 [login_partial, account_partial] empty_page) =
     Inr (Some \<lparr>email = Some ''al@example.com'', name = Some ''Alice'',
       accept_communications = Some True, data = [],
       user_data_loaded = \<lparr>ld_email = True, ld_account_info = True,
         ld_custom_fields = False, ld_access_groups = False\<rparr>\<rparr>) \<and>
   loadUserInfoCache P0 (merges P0 cfg0 [account_partial, login_partial] empty_page) =
     Inr (Some \<lparr>email = Some ''alice@example.com'', name = Some ''Alice'',
       accept_communications = Some True, data = [],
       user_data_loaded = \<lparr>ld_email = True, ld_account_info = True,
         ld_custom_fields = False, ld_access_groups = False\<rparr>\<rparr>)"
proof -
  have d: "distinct_flags login_partial account_partial"
    by (simp add: distinct_flags_def login_partial_def account_partial_def only_email_def
        only_account_info_def)
  have ab: "merged account_partial (Some (merged login_partial None)) =
      \<lparr>email = Some ''al@example.com'', name = Some ''Alice'',
       accept_communications = Some True, data = [],
       user_data_loaded = \<lparr>ld_email = True, ld_account_info = True,
         ld_custom_fields = False, ld_access_groups = False\<rparr>\<rparr>"
    by (simp add: merged_def merge_loaded_def merge_fields_def login_partial_def
        account_partial_def only_email_def only_account_info_def new_Sa5User_def)
  have ba: "merged login_partial (Some (merged account_partial None)) =
      \<lparr>email = Some ''alice@example.com'', name = Some ''Alice'',
       accept_communications = Some True, data = [],
       user_data_loaded = \<lparr>ld_email = True, ld_account_info = True,
         ld_custom_fields = False, ld_access_groups = False\<rparr>\<rparr>"
    by (simp add: merged_def merge_loaded_def merge_fields_def login_partial_def
        account_partial_def only_email_def only_account_info_def new_Sa5User_def)
  have ne: "merged account_partial (Some (merged login_partial None)) \<noteq>
      merged login_partial (Some (merged account_partial None))"
    unfolding ab ba by simp
  have st: "sessionStorage (merges P0 cfg0 [login_partial, account_partial] empty_page) ''wfuUser'' \<noteq>
      sessionStorage (merges P0 cfg0 [account_partial, login_partial] empty_page) ''wfuUser''"
    using ne encoded_inject [OF reversible_P0]
    unfolding persisted_after_two [OF reversible_P0 empty_page_load]
    by (auto simp: StorageKeys_user_def)
  show ?thesis
    using d st
    unfolding load_after_two [OF reversible_P0 empty_page_load] ab ba
    by simp
qed

text \<open>
  C3, amended: two profiles carrying distinct flags, merged into the same starting cache in
  either order, persist the same profile, provided that they agree on the email when both
  write it (one through the email flag, the other through the account-info flag).
\<close>

theorem merge_order_independent:
  assumes "reversible P"
    and "distinct_flags a b"
    and "writes_email a \<and> writes_email b \<longrightarrow> email a = email b"
  shows "sessionStorage (merges P cfg [a, b] s) = sessionStorage (merges P cfg [b, a] s) \<and>
         loadUserInfoCache P (merges P cfg [a, b] s) = loadUserInfoCache P (merges P cfg [b, a] s)"
proof (cases "loadUserInfoCache P s")
  case (Inl e)
  then show ?thesis by (simp only: two_throw [OF Inl])
next
  case (Inr c)
  show ?thesis
    unfolding persisted_after_two [OF assms(1) Inr] load_after_two [OF assms(1) Inr]
    by (simp add: merged_commute [OF assms(2,3)])
qed

theorem merge_order_independent_witness:
  "distinct_flags login_partial account_partial_alice \<and>
   writes_email login_partial \<and> writes_email account_partial_alice \<and>
   email login_partial = email account_partial_alice \<and>
   loadUserInfoCache P0 (merges P0 cfg0 [login_partial, account_partial_alice] empty_page) =
     loadUserInfoCache P0 (merges P0 cfg0 [account_partial_alice, login_partial] empty_page) \<and>
   loadUserInfoCache P0 (merges P0 cfg0 [account_partial_alice, login_partial] empty_page) =
     Inr (Some \<lparr>email = Some ''alice@example.com'', name = Some ''Alice'',
       accept_communications = Some True, data = [],
       user_data_loaded = \<lparr>ld_email = True, ld_account_info = True,
         ld_custom_fields = False, ld_access_groups = False\<rparr>\<rparr>)"
proof -
  have d: "distinct_flags login_partial account_partial_alice"
    by (simp add: distinct_flags_def login_partial_def account_partial_alice_def
        account_partial_def only_email_def only_account_info_def)
  have w: "writes_email login_partial \<and> writes_email account_partial_alice"
    by (simp add: writes_email_def login_partial_def account_partial_alice_def
        account_partial_def only_email_def only_account_info_def)
  have e: "email login_partial = email account_partial_alice"
    by (simp add: login_partial_def account_partial_alice_def)
  have v: "merged login_partial (Some (merged account_partial_alice None)) =
     \<lparr>email = Some ''alice@example.com'', name = Some ''Alice'',
       accept_communications = Some True, data = [],
       user_data_loaded = \<lparr>ld_email = True, ld_account_info = True,
         ld_custom_fields = False, ld_access_groups = False\<rparr>\<rparr>"
    by (simp add: merged_def merge_loaded_def merge_fields_def login_partial_def
        account_partial_alice_def account_partial_def only_email_def only_account_info_def
        new_Sa5User_def)
  show ?thesis
    using merge_order_independent [OF reversible_P0 d, of cfg0 empty_page] d w e
    unfolding load_after_two [OF reversible_P0 empty_page_load] v
    by simp
qed

text \<open>
  C4: the guard of \<^verbatim>\<open>saveUserInfoCache\<close> tests the method \<^verbatim>\<open>isLoggedIn\<close> itself and not
  its result. On a page with no login cookie the call merges, persists and notifies, and
  returns nothing rather than \<^verbatim>\<open>null\<close>.
\<close>

theorem save_while_logged_out:
  "\<not> isLoggedIn empty_page \<and>
   saveUserInfoCache P0 cfg0 login_partial empty_page =
     Inr (Undefined,
       empty_page\<lparr>sessionStorage := [''wfuUser'' \<mapsto> btoa P0 (JSON_stringify P0 login_partial)],
         trace := [DataBind login_partial, UserCallback login_partial]\<rparr>)"
proof -
  have m: "merged login_partial None = login_partial"
    by (simp add: merged_def merge_loaded_def merge_fields_def login_partial_def
        only_email_def new_Sa5User_def)
  have "\<not> isLoggedIn empty_page"
    by (simp add: isLoggedIn_def getCookie_def empty_page_def)
  then show ?thesis
    unfolding save_result [OF empty_page_load] m
    by (simp add: notified_def cfg0_def empty_page_def StorageKeys_user_def)
qed

text \<open>
  C5: from every page on which the visitor is not logged in, \<^verbatim>\<open>readyUserInfo\<close> leaves no
  profile under the session key \<^verbatim>\<open>wfuUser\<close> and no identity key under the local key
  \<^verbatim>\<open>wfuUserKey\<close>, and runs no data binder, callback or fetch.
\<close>

theorem readyUserInfo_logged_out:
  assumes "\<not> isLoggedIn s"
  shows "\<exists>s'. readyUserInfo P cfg s = Inr s' \<and>
           sessionStorage s' ''wfuUser'' = None \<and> localStorage s' ''wfuUserKey'' = None \<and>
           new_events s s' = [] \<and> trace s' = trace s"
  using assms
  by (simp add: readyUserInfo_def clearUserInfo_def StorageKeys_user_def
      StorageKeys_userKey_def new_events_def)

theorem readyUserInfo_logged_out_witness:
  "\<not> isLoggedIn stale_page \<and>
   sessionStorage stale_page ''wfuUser'' \<noteq> None \<and> localStorage stale_page ''wfuUserKey'' \<noteq> None \<and>
   (\<exists>s'. readyUserInfo P0 cfg0 stale_page = Inr s' \<and>
      sessionStorage s' ''wfuUser'' = None \<and> localStorage s' ''wfuUserKey'' = None \<and>
      new_events stale_page s' = [] \<and> trace s' = trace stale_page)"
proof -
  have l: "\<not> isLoggedIn stale_page"
    by (simp add: isLoggedIn_def getCookie_def stale_page_def)
  have "sessionStorage stale_page ''wfuUser'' \<noteq> None \<and> localStorage stale_page ''wfuUserKey'' \<noteq> None"
    by (simp add: stale_page_def cached_page_def StorageKeys_user_def)
  then show ?thesis
    using l readyUserInfo_logged_out [OF l, of P0 cfg0] by simp
qed

text \<open>
  C6: when the visitor is logged in, a cached profile exists and an update callback is
  configured, \<^verbatim>\<open>readyUserInfo\<close> calls the callback exactly once, with the cached
  profile, launches no fetch, and leaves the storage as it is.
\<close>

theorem readyUserInfo_cached:
  assumes "isLoggedIn s"
    and "loadUserInfoCache P s = Inr (Some user)"
    and "userInfoUpdatedCallback cfg"
  shows "\<exists>s'. readyUserInfo P cfg s = Inr s' \<and>
           sessionStorage s' = sessionStorage s \<and> localStorage s' = localStorage s \<and>
           new_events s s' = (if dataBind cfg then [DataBind user] else []) @ [UserCallback user] \<and>
           filter is_UserCallback (new_events s s') = [UserCallback user] \<and>
           filter is_Launch (new_events s s') = []"
  using assms by (simp add: readyUserInfo_def new_events_def)

lemma cached_page_logged_in: "isLoggedIn cached_page"
  by (simp add: isLoggedIn_def getCookie_def cached_page_def logged_in_page_def empty_page_def)

theorem readyUserInfo_cached_witness:
  "isLoggedIn cached_page \<and> loadUserInfoCache P0 cached_page = Inr (Some account_cached) \<and>
   userInfoUpdatedCallback cfg0 \<and>
   (\<exists>s'. readyUserInfo P0 cfg0 cached_page = Inr s' \<and>
      sessionStorage s' = sessionStorage cached_page \<and>
      localStorage s' = localStorage cached_page \<and>
      new_events cached_page s' = [DataBind account_cached, UserCallback account_cached] \<and>
      filter is_UserCallback (new_events cached_page s') = [UserCallback account_cached] \<and>
      filter is_Launch (new_events cached_page s') = [])"
proof -
  have c: "userInfoUpdatedCallback cfg0" by (simp add: cfg0_def)
  show ?thesis
    using readyUserInfo_cached [OF cached_page_logged_in cached_page_load c]
      cached_page_logged_in cached_page_load c
    by (simp add: cfg0_def)
qed




section \<open>Properties of the poster mirror\<close>

lemma fold_update_length:
  "length (fold (\<lambda>i d. d[i := f (d ! i)]) js d) = length d"
  by (induction js arbitrary: d) simp_all

lemma fold_update_nth:
  assumes "distinct js" and "i < length d"
  shows "fold (\<lambda>i d. d[i := f (d ! i)]) js d ! i = (if i \<in> set js then f (d ! i) else d ! i)"
  using assms
proof (induction js arbitrary: d)
  case Nil
  then show ?case by simp
next
  case (Cons j js)
  have "fold (\<lambda>i d. d[i := f (d ! i)]) js (d[j := f (d ! j)]) ! i =
      (if i \<in> set js then f (d[j := f (d ! j)] ! i) else d[j := f (d ! j)] ! i)"
    using Cons.IH [of "d[j := f (d ! j)]"] Cons.prems by simp
  moreover have "i \<in> set js \<Longrightarrow> i \<noteq> j"
    using Cons.prems by auto
  ultimately show ?case using Cons.prems by (auto simp: nth_list_update)
qed

lemma distinct_query: "distinct (querySelectorAll_div_poster doc)"
  by (simp add: querySelectorAll_div_poster_def)

lemma set_query:
  "i < length doc \<Longrightarrow>
   i \<in> set (querySelectorAll_div_poster doc) \<longleftrightarrow>
     tagName (doc ! i) = ''div'' \<and> attributes (doc ! i) ''wfu-data-poster-url'' \<noteq> None"
  by (simp add: querySelectorAll_div_poster_def)

text \<open>
  C9, as stated, fails: the selector takes \<^verbatim>\<open>div\<close> elements only, so a \<^verbatim>\<open>video\<close>
  element carrying the source attribute gets no target attribute.
\<close>

theorem poster_mirror_counterexample:
  "attributes (video_doc ! 0) ''wfu-data-poster-url'' = Some ''poster.jpg'' \<and>
   attributes (processAllDataPosterUrls video_doc ! 0) ''data-poster-url'' = None"
  by (simp add: video_doc_def processAllDataPosterUrls_def querySelectorAll_div_poster_def
      upt_rec [of 0] upt_rec [of 1] upt_rec [of 2] setAttribute_def getAttribute_def)

text \<open>
  C9, amended: after the mirror every \<^verbatim>\<open>div\<close> element carrying \<^verbatim>\<open>wfu-data-poster-url\<close> has
  \<^verbatim>\<open>data-poster-url\<close> equal to the value of the source attribute, and is otherwise as it
  was; every other element is unchanged.
\<close>

theorem poster_mirror_div:
  assumes "i < length doc"
  shows "length (processAllDataPosterUrls doc) = length doc \<and>
     (tagName (doc ! i) = ''div'' \<and> attributes (doc ! i) ''wfu-data-poster-url'' \<noteq> None \<longrightarrow>
        attributes (processAllDataPosterUrls doc ! i) ''data-poster-url'' =
          attributes (doc ! i) ''wfu-data-poster-url'' \<and>
        processAllDataPosterUrls doc ! i =
          (doc ! i)\<lparr>attributes := (attributes (doc ! i))
             (''data-poster-url'' := attributes (doc ! i) ''wfu-data-poster-url'')\<rparr>) \<and>
     (tagName (doc ! i) \<noteq> ''div'' \<or> attributes (doc ! i) ''wfu-data-poster-url'' = None \<longrightarrow>
        processAllDataPosterUrls doc ! i = doc ! i)"
proof -
  let ?f = "\<lambda>el. setAttribute ''data-poster-url'' (getAttribute el ''wfu-data-poster-url'') el"
  have len: "length (processAllDataPosterUrls doc) = length doc"
    unfolding processAllDataPosterUrls_def
    by (rule fold_update_length [where f = ?f])
  have nth: "processAllDataPosterUrls doc ! i =
      (if i \<in> set (querySelectorAll_div_poster doc) then ?f (doc ! i) else doc ! i)"
    unfolding processAllDataPosterUrls_def
    by (rule fold_update_nth [OF distinct_query assms])
  show ?thesis
    unfolding nth set_query [OF assms]
    using len by (auto simp: setAttribute_def getAttribute_def)
qed

theorem poster_mirror_div_witness:
  "length (processAllDataPosterUrls video_doc) = 3 \<and>
   processAllDataPosterUrls video_doc ! 0 = video_doc ! 0 \<and>
   tagName (video_doc ! 1) = ''div'' \<and>
   attributes (video_doc ! 1) ''wfu-data-poster-url'' = Some ''cover.png'' \<and>
   attributes (video_doc ! 1) ''data-poster-url'' = Some ''old.png'' \<and>
   attributes (processAllDataPosterUrls video_doc ! 1) ''data-poster-url'' = Some ''cover.png'' \<and>
   processAllDataPosterUrls video_doc ! 2 = video_doc ! 2"
  using poster_mirror_div [of 0 video_doc] poster_mirror_div [of 1 video_doc]
    poster_mirror_div [of 2 video_doc]
  by (simp add: video_doc_def)

section \<open>Properties of the text operations\<close>


lemma startsWith_Cons: "startsWith (x # t) (c # p) \<longleftrightarrow> x = c \<and> startsWith t p"
  by (auto simp: startsWith_def)

lemma startsWith_append: "startsWith (p @ t) p"
  by (simp add: startsWith_def)

lemma split_at_absent: "c \<notin> set a \<Longrightarrow> split_at (c # p) a = [a]"
  by (induction a) (auto simp: startsWith_Cons)

lemma split_at_first:
  "c \<notin> set a \<Longrightarrow> split_at (c # p) (a @ (c # p) @ b) = a # split_at (c # p) b"
proof (induction a)
  case Nil
  have "startsWith (c # p @ b) (c # p)"
    using startsWith_append [of "c # p" b] by simp
  then show ?case by simp
next
  case (Cons x a)
  then show ?case by (auto simp: startsWith_Cons)
qed



declare split_at.simps [simp del]

lemma before_append: "c \<notin> set a \<Longrightarrow> before c (a @ c # b) = a"
  by (induction a) (auto simp: before_def)

lemma before_absent: "c \<notin> set a \<Longrightarrow> before c a = a"
  by (induction a) (auto simp: before_def)

lemma after_append: "c \<notin> set a \<Longrightarrow> after c (a @ c # b) = b"
  by (simp add: after_def before_append)

lemma after_absent: "c \<notin> set a \<Longrightarrow> after c a = []"
  by (simp add: after_def before_absent)

lemma is_wsp_is_space: "is_wsp c \<Longrightarrow> is_space c"
  by (auto simp: is_wsp_def is_space_def)

lemma dropWhile_hd: "t \<noteq> [] \<Longrightarrow> \<not> P (hd t) \<Longrightarrow> dropWhile P t = t"
  by (cases t) simp_all

lemma wsp_trim_id: "t \<noteq> [] \<Longrightarrow> \<not> is_wsp (hd t) \<Longrightarrow> \<not> is_wsp (last t) \<Longrightarrow> wsp_trim t = t"
  by (simp add: wsp_trim_def dropWhile_hd hd_rev)

lemma wsp_trim_name: "cookie_name_ok n \<Longrightarrow> wsp_trim n = n"
  using is_wsp_is_space by (auto simp: cookie_name_ok_def intro!: wsp_trim_id)

lemma wsp_trim_value: "cookie_value_ok v \<Longrightarrow> wsp_trim v = v"
  using is_wsp_is_space by (auto simp: cookie_value_ok_def intro!: wsp_trim_id)

lemma no_ctl_append: "no_ctl (a @ b) \<longleftrightarrow> no_ctl a \<and> no_ctl b"
  by (simp add: no_ctl_def)

lemma cut_line_id: "no_ctl t \<Longrightarrow> cut_line t = t"
  by (auto simp: cut_line_def no_ctl_def list_all_iff is_ctl_def is_terminator_def)

lemma set_wsp_trim: "set (wsp_trim t) \<subseteq> set t"
proof -
  have "set (dropWhile is_wsp (rev (dropWhile is_wsp t))) \<subseteq> set (rev (dropWhile is_wsp t))"
    by (rule set_dropWhileD [THEN subsetI])
  also have "\<dots> \<subseteq> set t"
    using set_dropWhileD [of _ is_wsp t] by auto
  finally show ?thesis by (simp add: wsp_trim_def)
qed

lemma wsp_trim_ends:
  assumes "wsp_trim t \<noteq> []"
  shows "\<not> is_wsp (hd (wsp_trim t))" and "\<not> is_wsp (last (wsp_trim t))"
proof -
  let ?y = "dropWhile is_wsp t"
  let ?z = "dropWhile is_wsp (rev ?y)"
  have z: "?z \<noteq> []" using assms by (simp add: wsp_trim_def)
  have y: "?y \<noteq> []"
  proof
    assume "?y = []"
    then have "?z = []" by (simp only: rev.simps dropWhile.simps)
    then show False using z by (simp only: not_True_eq_False simp_thms)
  qed
  have "\<not> is_wsp (hd ?z)" using z by (rule hd_dropWhile)
  then show "\<not> is_wsp (last (wsp_trim t))"
    using z by (simp add: wsp_trim_def last_rev)
  have "last ?z = last (rev ?y)"
    using z by (metis append_Nil2 dropWhile_eq_Nil_conv last_appendR takeWhile_dropWhile_id)
  then have "hd (wsp_trim t) = hd ?y"
    using z y by (simp add: wsp_trim_def hd_rev last_rev)
  then show "\<not> is_wsp (hd (wsp_trim t))"
    using hd_dropWhile [OF y] by simp
qed

lemma before_set: "set (before c t) \<subseteq> set t" "c \<notin> set (before c t)"
  using set_takeWhileD [of _ "\<lambda>x. x \<noteq> c" t] by (auto simp: before_def)

lemma after_set: "set (after c t) \<subseteq> set t"
  by (auto simp: after_def dest: in_set_dropD)

lemma store_ok_written: "store_ok j \<Longrightarrow> store_ok (set_document_cookie t j)"
proof -
  assume j: "store_ok j"
  let ?pair = "before CHR '';'' (cut_line t)"
  let ?n = "wsp_trim (before CHR ''='' ?pair)"
  let ?v = "wsp_trim (after CHR ''='' ?pair)"
  have n: "CHR ''='' \<notin> set ?n" "CHR '';'' \<notin> set ?n"
    using set_wsp_trim [of "before CHR ''='' ?pair"] before_set [of "CHR ''=''" ?pair]
      before_set [of "CHR '';''" "cut_line t"] by auto
  have v: "CHR '';'' \<notin> set ?v"
    using set_wsp_trim [of "after CHR ''='' ?pair"] after_set [of "CHR ''=''" ?pair]
      before_set [of "CHR '';''" "cut_line t"] by auto
  have e: "?n \<noteq> [] \<Longrightarrow> \<not> is_wsp (hd ?n) \<and> \<not> is_wsp (last ?n)"
    using wsp_trim_ends [of "before CHR ''='' ?pair"] by simp
  show ?thesis
    using j n v e
    unfolding set_document_cookie_def Let_def store_ok_def
    by (auto simp: list_all_iff split: if_splits)
qed

lemma store_ok_empty: "store_ok []"
  by (simp add: store_ok_def)














section \<open>Properties of the tracker\<close>

lemma track_cookie:
  assumes "cookie_name_ok k" and "cookie_value_ok v"
  shows "set_document_cookie (k @ ''='' @ v) j =
     (if k \<in> set (map fst j) then map (\<lambda>(m, w). if m = k then (m, v) else (m, w)) j
      else j @ [(k, v)])"
proof -
  have s: "CHR '';'' \<notin> set (k @ ''='' @ v)" and e: "CHR ''='' \<notin> set k" and ne: "k \<noteq> []"
    using assms by (simp_all add: cookie_name_ok_def cookie_value_ok_def)
  have p: "before CHR '';'' (k @ ''='' @ v) = k @ ''='' @ v"
    by (rule before_absent [OF s])
  have a: "after CHR '';'' (k @ ''='' @ v) = []"
    by (rule after_absent [OF s])
  have b: "before CHR ''='' (k @ ''='' @ v) = k"
    using before_append [OF e, of v] by simp
  have c: "after CHR ''='' (k @ ''='' @ v) = v"
    using after_append [OF e, of v] by simp
  have x: "\<not> list_ex expires_in_the_past (split [] '';'')"
    by (simp add: split_def split_at.simps expires_in_the_past_def before_def wsp_trim_def)
  have kc: "no_ctl k" and vc: "no_ctl v"
    using assms by (simp_all add: cookie_name_ok_def cookie_value_ok_def)
  have "no_ctl ''=''"
    by (simp add: no_ctl_def is_ctl_def)
  then have l: "cut_line (k @ ''='' @ v) = k @ ''='' @ v"
    using kc vc by (intro cut_line_id) (simp only: no_ctl_append)
  show ?thesis
    unfolding set_document_cookie_def l p a b c Let_def
      wsp_trim_name [OF assms(1)] wsp_trim_value [OF assms(2)]
    using x ne kc vc by simp
qed

lemma split_cookie_rows:
  assumes "jar_ok ((n, v) # r)"
  shows "split (document_cookie ((n, v) # r)) ''; '' = map (\<lambda>(n, v). n @ ''='' @ v) ((n, v) # r)"
  using assms
proof (induction r arbitrary: n v)
  case Nil
  then have "CHR '';'' \<notin> set (n @ ''='' @ v)"
    by (simp add: jar_ok_def cookie_name_ok_def)
  then show ?case by (simp add: split_def split_at_absent)
next
  case (Cons c r)
  obtain m w where c: "c = (m, w)" by (cases c)
  have a: "CHR '';'' \<notin> set (n @ ''='' @ v)"
    using Cons.prems by (simp add: jar_ok_def cookie_name_ok_def)
  have ih: "split_at ''; '' (document_cookie ((m, w) # r)) =
      map (\<lambda>(n, v). n @ ''='' @ v) ((m, w) # r)"
    using Cons.IH [of m w] Cons.prems by (simp add: c jar_ok_def split_def)
  have "document_cookie ((n, v) # c # r) =
      (n @ ''='' @ v) @ ''; '' @ document_cookie ((m, w) # r)"
    by (simp add: c)
  then have "split_at ''; '' (document_cookie ((n, v) # c # r)) =
      (n @ ''='' @ v) # split_at ''; '' (document_cookie ((m, w) # r))"
    using split_at_first [OF a, of "'' ''"] by simp
  then show ?case by (simp add: ih split_def c)
qed

lemma not_startsWith_row:
  assumes "CHR ''='' \<notin> set k" and "\<not> startsWith n k"
  shows "\<not> startsWith (n @ ''='' @ w) k"
proof
  assume "startsWith (n @ ''='' @ w) k"
  then have t: "take (length k) n @ take (length k - length n) (CHR ''='' # w) = k"
    by (simp add: startsWith_def)
  show False
  proof (cases "length k \<le> length n")
    case True
    then show False using t assms(2) by (simp add: startsWith_def)
  next
    case False
    then obtain d where "length k - length n = Suc d"
      by (cases "length k - length n") simp_all
    then have "take (length k) n @ CHR ''='' # take d w = k"
      using t by simp
    then have "CHR ''='' \<in> set k"
      by (metis in_set_conv_decomp)
    then show False using assms(1) by simp
  qed
qed

lemma find_row:
  assumes "list_all (\<lambda>(n, w). (n = k \<longrightarrow> w = v) \<and> (n \<noteq> k \<longrightarrow> \<not> startsWith (n @ ''='' @ w) k)) j"
    and "k \<in> fst ` set j"
  shows "find (\<lambda>row. startsWith row k) (map (\<lambda>(n, v). n @ ''='' @ v) j) = Some (k @ ''='' @ v)"
  using assms
proof (induction j)
  case Nil
  then show ?case by simp
next
  case (Cons c j)
  obtain n w where c: "c = (n, w)" by (cases c)
  show ?case
  proof (cases "n = k")
    case True
    then show ?thesis using Cons.prems by (simp add: c startsWith_append)
  next
    case False
    then have "k \<in> fst ` set j" using Cons.prems(2) by (auto simp: c)
    then show ?thesis using Cons.IH Cons.prems(1) False by (simp add: c)
  qed
qed

lemma split_pair:
  assumes "CHR ''='' \<notin> set k" and "CHR ''='' \<notin> set v"
  shows "split (k @ ''='' @ v) ''='' = [k, v]"
  using split_at_first [OF assms(1), of "[]" v] split_at_absent [OF assms(2), of "[]"]
  by (simp add: split_def)

lemma isTracked_cookie:
  assumes "cookie_name_ok k" and "cookie_value_ok v" and "jar_ok j" and "unshadowed k j"
  shows "(case find (\<lambda>row. startsWith row k)
                 (split (document_cookie (set_document_cookie (k @ ''='' @ v) j)) ''; '') of
            None \<Rightarrow> None
          | Some row \<Rightarrow> at (split row ''='') 1) = Some v"
proof -
  let ?j = "set_document_cookie (k @ ''='' @ v) j"
  have e: "CHR ''='' \<notin> set k" and e': "CHR ''='' \<notin> set v" and s': "CHR '';'' \<notin> set v"
    using assms(1,2) by (simp_all add: cookie_name_ok_def cookie_value_ok_def)
  have j: "?j = (if k \<in> set (map fst j)
      then map (\<lambda>(m, w). if m = k then (m, v) else (m, w)) j else j @ [(k, v)])"
    by (rule track_cookie [OF assms(1,2)])
  have ok: "jar_ok ?j"
    using assms(1,3) s' unfolding j by (auto simp: jar_ok_def list_all_iff split: if_splits)
  have mem: "k \<in> fst ` set ?j"
    unfolding j by (force simp: image_iff)
  have memj: "\<And>a b. (a, b) \<in> set j \<Longrightarrow> a \<in> fst ` set j"
    by force
  have rows: "list_all (\<lambda>(n, w). (n = k \<longrightarrow> w = v) \<and>
      (n \<noteq> k \<longrightarrow> \<not> startsWith (n @ ''='' @ w) k)) ?j"
    using assms(4) not_startsWith_row [OF e] memj unfolding j
    by (auto simp: unshadowed_def list_all_iff split: if_splits)
  obtain n w r where c: "?j = (n, w) # r"
    using mem by (cases ?j) auto
  have sp: "split (document_cookie ?j) ''; '' = map (\<lambda>(n, v). n @ ''='' @ v) ?j"
    using split_cookie_rows [of n w r] ok unfolding c by simp
  have fr: "find (\<lambda>row. startsWith row k) (map (\<lambda>(n, v). n @ ''='' @ v) ?j) =
      Some (k @ ''='' @ v)"
    by (rule find_row [OF rows mem])
  show ?thesis
    unfolding sp fr by (simp only: option.case split_pair [OF e e']) (simp add: at_def)
qed


text \<open>
  C7, as stated, fails: on cookies a value with \<^verbatim>\<open>=\<close> in it comes back cut at the
  \<^verbatim>\<open>=\<close>, because \<^verbatim>\<open>isTracked\<close> takes the second piece of the pair split at every \<^verbatim>\<open>=\<close>,
  and a value with a line feed in it comes back cut at the line feed; and on every method
  an empty value is stored as \<^verbatim>\<open>true\<close>.
\<close>

theorem track_then_isTracked_counterexample:
  "isTracked cookie_tracker ''k'' (track cookie_tracker ''k'' (Some ''a=b'') empty_page) = Some ''a'' \<and>
   isTracked cookie_tracker ''k''
     (track cookie_tracker ''k'' (Some [CHR ''a'', CHR 0x0A, CHR ''b'']) empty_page) = Some ''a'' \<and>
   isTracked session_tracker ''k'' (track session_tracker ''k'' (Some []) empty_page) = Some ''true''"
proof -
  have 1: "set_document_cookie ''track_k=a=b'' [] = [(''track_k'', ''a=b'')]"
    by (simp add: set_document_cookie_def cut_line_def is_terminator_def no_ctl_def is_ctl_def
        before_def after_def split_def split_at.simps expires_in_the_past_def wsp_trim_def
        is_wsp_def)
  have 2: "split ''track_k=a=b'' ''; '' = [''track_k=a=b'']"
    unfolding split_def by (simp add: split_at_absent)
  have 3: "split ''track_k=a=b'' ''='' = [''track_k'', ''a'', ''b'']"
    using split_at_first [of "CHR ''=''" "''track_k''" "[]" "''a=b''"]
      split_at_first [of "CHR ''=''" "''a''" "[]" "''b''"]
      split_at_absent [of "CHR ''=''" "''b''" "[]"]
    by (simp add: split_def)
  have c: "isTracked cookie_tracker ''k'' (track cookie_tracker ''k'' (Some ''a=b'') empty_page) =
      Some ''a''"
    by (simp add: isTracked_def track_def cookie_tracker_def trackKey_def or_true_def
        empty_page_def 1 2 3 startsWith_def at_def)
  have 4: "set_document_cookie (''track_k='' @ [CHR ''a'', CHR 0x0A, CHR ''b'']) [] =
      [(''track_k'', ''a'')]"
    by (simp add: set_document_cookie_def cut_line_def is_terminator_def no_ctl_def is_ctl_def
        before_def after_def split_def split_at.simps expires_in_the_past_def wsp_trim_def
        is_wsp_def)
  have 5: "split ''track_k=a'' ''; '' = [''track_k=a'']"
    unfolding split_def by (simp add: split_at_absent)
  have 6: "split ''track_k=a'' ''='' = [''track_k'', ''a'']"
    using split_at_first [of "CHR ''=''" "''track_k''" "[]" "''a''"]
      split_at_absent [of "CHR ''=''" "''a''" "[]"]
    by (simp add: split_def)
  have l: "isTracked cookie_tracker ''k''
      (track cookie_tracker ''k'' (Some [CHR ''a'', CHR 0x0A, CHR ''b'']) empty_page) = Some ''a''"
    using 4
    by (simp add: isTracked_def track_def cookie_tracker_def trackKey_def or_true_def
        empty_page_def 5 6 startsWith_def at_def)
  have s: "isTracked session_tracker ''k'' (track session_tracker ''k'' (Some []) empty_page) =
      Some ''true''"
    by (simp add: isTracked_def track_def session_tracker_def defaultConfig_def or_true_def)
  show ?thesis using c l s by simp
qed

text \<open>
  C7, amended: on session and local storage, \<^verbatim>\<open>track\<close> and then \<^verbatim>\<open>isTracked\<close> give the
  value tracked when it is not empty, and \<^verbatim>\<open>true\<close> when no value or an empty one was
  given. On cookies the same holds when the namespaced key and the value stored have no
  \<^verbatim>\<open>=\<close>, no \<^verbatim>\<open>;\<close>, no control character (a code below 32, or 127) and no white space
  at their ends, when the namespaced key does not begin with two underscores, when the
  cookie store is well formed (every name is not empty, has no \<^verbatim>\<open>=\<close>, no \<^verbatim>\<open>;\<close>, no
  character of a code below 32 and no white space at its ends, and every value has no
  \<^verbatim>\<open>;\<close>), and when no other cookie of the store has a name that begins with the
  namespaced key.
\<close>

theorem track_then_isTracked:
  "(method cfg = ''sessionStorage'' \<or> method cfg = ''localStorage'' \<longrightarrow>
      isTracked cfg key (track cfg key val s) = Some (or_true val)) \<and>
   (method cfg = ''cookies'' \<and> cookie_name_ok (trackKey cfg key) \<and>
    plain_key (trackKey cfg key) \<and> cookie_value_ok (or_true val) \<and>
    jar_ok (cookies s) \<and> unshadowed (trackKey cfg key) (cookies s) \<longrightarrow>
      isTracked cfg key (track cfg key val s) = Some (or_true val)) \<and>
   (val = None \<or> val = Some [] \<longrightarrow> or_true val = ''true'') \<and>
   (\<forall>v. val = Some v \<and> v \<noteq> [] \<longrightarrow> or_true val = v)"
proof -
  have st: "method cfg = ''sessionStorage'' \<or> method cfg = ''localStorage'' \<Longrightarrow>
      isTracked cfg key (track cfg key val s) = Some (or_true val)"
    by (auto simp: isTracked_def track_def)
  have ck: "isTracked cfg key (track cfg key val s) = Some (or_true val)"
    if m: "method cfg = ''cookies''" and k: "cookie_name_ok (trackKey cfg key)"
      and v: "cookie_value_ok (or_true val)" and j: "jar_ok (cookies s)"
      and u: "unshadowed (trackKey cfg key) (cookies s)"
  proof -
    have t: "prefix cfg @ ''_'' @ key @ ''='' @ or_true val = trackKey cfg key @ ''='' @ or_true val"
      by (simp add: trackKey_def)
    have "isTracked cfg key (track cfg key val s) =
        (case find (\<lambda>row. startsWith row (trackKey cfg key))
            (split (document_cookie
               (set_document_cookie (trackKey cfg key @ ''='' @ or_true val) (cookies s))) ''; '') of
           None \<Rightarrow> None
         | Some row \<Rightarrow> at (split row ''='') 1)"
      unfolding isTracked_def track_def t using m by simp
    then show ?thesis
      unfolding isTracked_cookie [OF k v j u] .
  qed
  have o: "(val = None \<or> val = Some [] \<longrightarrow> or_true val = ''true'') \<and>
      (\<forall>v. val = Some v \<and> v \<noteq> [] \<longrightarrow> or_true val = v)"
    by (auto simp: or_true_def)
  show ?thesis using st ck o by blast
qed

theorem track_then_isTracked_witness:
  "isTracked session_tracker ''seen'' (track session_tracker ''seen'' (Some ''yes'') visited_page) =
     Some ''yes'' \<and>
   isTracked local_tracker ''seen'' (track local_tracker ''seen'' None visited_page) = Some ''true'' \<and>
   cookie_name_ok (trackKey cookie_tracker ''step'') \<and>
   plain_key (trackKey cookie_tracker ''step'') \<and> cookie_value_ok ''3'' \<and>
   jar_ok (cookies visited_page) \<and> unshadowed (trackKey cookie_tracker ''step'') (cookies visited_page) \<and>
   isTracked cookie_tracker ''step'' (track cookie_tracker ''step'' (Some ''3'') visited_page) =
     Some ''3''"
proof -
  have k: "cookie_name_ok (trackKey cookie_tracker ''step'')"
    by (simp add: trackKey_def cookie_tracker_def cookie_name_ok_def is_space_def no_ctl_def
        is_ctl_def)
  have p: "plain_key (trackKey cookie_tracker ''step'')"
    by (simp add: trackKey_def cookie_tracker_def plain_key_def startsWith_def)
  have v: "cookie_value_ok ''3''"
    by (simp add: cookie_value_ok_def is_space_def no_ctl_def is_ctl_def)
  have j: "jar_ok (cookies visited_page)"
    by (simp add: visited_page_def jar_ok_def cookie_name_ok_def is_space_def no_ctl_def is_ctl_def)
  have u: "unshadowed (trackKey cookie_tracker ''step'') (cookies visited_page)"
    by (simp add: unshadowed_def visited_page_def trackKey_def cookie_tracker_def startsWith_def)
  have o: "or_true (Some ''yes'') = ''yes''" "or_true None = ''true''" "or_true (Some ''3'') = ''3''"
    by (simp_all add: or_true_def)
  have m: "method session_tracker = ''sessionStorage''" "method local_tracker = ''localStorage''"
    "method cookie_tracker = ''cookies''"
    by (simp_all add: session_tracker_def defaultConfig_def local_tracker_def cookie_tracker_def)
  show ?thesis
    using track_then_isTracked [of session_tracker "''seen''" "Some ''yes''" visited_page]
      track_then_isTracked [of local_tracker "''seen''" None visited_page]
      track_then_isTracked [of cookie_tracker "''step''" "Some ''3''" visited_page]
      k p v j u
    unfolding o m by simp
qed

end
